theory Spec2Isabelle
  imports Main
begin

section \<open>Strings and slash-separated paths\<close>

text \<open>
  Go strings are byte sequences; they are modelled as \<open>string\<close> (a list of
  \<open>char\<close>, one per byte). The functions of Go's standard packages \<open>strings\<close>
  and \<open>path\<close> that the resolver calls are written out after their standard-library
  bodies.
\<close>

definition strings_HasSuffix :: "string \<Rightarrow> string \<Rightarrow> bool" where
  "strings_HasSuffix s suf \<longleftrightarrow>
     length suf \<le> length s \<and> drop (length s - length suf) s = suf"

definition strings_HasPrefix :: "string \<Rightarrow> string \<Rightarrow> bool" where
  "strings_HasPrefix s pre \<longleftrightarrow> length pre \<le> length s \<and> take (length pre) s = pre"

definition strings_TrimPrefix :: "string \<Rightarrow> string \<Rightarrow> string" where
  "strings_TrimPrefix s pre = (if strings_HasPrefix s pre then drop (length pre) s else s)"

text \<open>
  \<open>path.Base\<close>: the last element of a path. Trailing slashes are removed first; the
  empty path gives \<open>.\<close>, a path of slashes only gives \<open>/\<close>.
\<close>

definition path_Base :: "string \<Rightarrow> string" where
  "path_Base p =
     (if p = [] then ''.''
      else
        let p1 = rev (dropWhile (\<lambda>c. c = CHR ''/'') (rev p));
            p2 = rev (takeWhile (\<lambda>c. c \<noteq> CHR ''/'') (rev p1))
        in if p2 = [] then ''/'' else p2)"

text \<open>
  \<open>path.Clean\<close>. The Go loop reads the path at index \<open>r\<close> and writes into a buffer
  of which the first \<open>w\<close> bytes are valid; here \<open>rest\<close> is the unread part of the path
  and \<open>out\<close> the valid part of the buffer. \<open>backtrack\<close> is the inner loop of the
  \<open>..\<close> case: it moves \<open>w\<close> back to the previous slash, but not below \<open>dotdot\<close>.
\<close>

fun backtrack :: "string \<Rightarrow> nat \<Rightarrow> nat \<Rightarrow> nat" where
  "backtrack out dotdot 0 = 0"
| "backtrack out dotdot (Suc w) =
     (if Suc w > dotdot \<and> out ! Suc w \<noteq> CHR ''/'' then backtrack out dotdot w else Suc w)"

function Clean_loop :: "bool \<Rightarrow> string \<Rightarrow> string \<Rightarrow> nat \<Rightarrow> string" where
  "Clean_loop rooted [] out dotdot = out"
| "Clean_loop rooted (c # cs) out dotdot =
     (if c = CHR ''/'' then Clean_loop rooted cs out dotdot
      else if c = CHR ''.'' \<and> (cs = [] \<or> hd cs = CHR ''/'') then Clean_loop rooted cs out dotdot
      else if c = CHR ''.'' \<and> hd cs = CHR ''.'' \<and> (tl cs = [] \<or> hd (tl cs) = CHR ''/'') then
        (if length out > dotdot then
           Clean_loop rooted (tl cs) (take (backtrack out dotdot (length out - 1)) out) dotdot
         else if \<not> rooted then
           (let out' = (if length out > 0 then out @ ''/'' else out) @ ''..''
            in Clean_loop rooted (tl cs) out' (length out'))
         else Clean_loop rooted (tl cs) out dotdot)
      else
        (let out' = (if rooted \<and> length out \<noteq> 1 \<or> \<not> rooted \<and> length out \<noteq> 0
                     then out @ ''/'' else out)
         in Clean_loop rooted (dropWhile (\<lambda>x. x \<noteq> CHR ''/'') cs)
              (out' @ c # takeWhile (\<lambda>x. x \<noteq> CHR ''/'') cs) dotdot))"
  by pat_completeness auto
termination
  by (relation "measure (\<lambda>(rooted, rest, out, dotdot). length rest)")
     (auto simp: less_Suc_eq_le length_dropWhile_le)

definition path_Clean :: "string \<Rightarrow> string" where
  "path_Clean p =
     (if p = [] then ''.''
      else
        let rooted = (hd p = CHR ''/'');
            out = (if rooted then Clean_loop rooted (tl p) ''/'' 1
                   else Clean_loop rooted p [] 0)
        in if out = [] then ''.'' else out)"

text \<open>
  \<open>path.Dir\<close>: everything up to and including the last slash (\<open>path.Split\<close>),
  cleaned.
\<close>

definition path_Dir :: "string \<Rightarrow> string" where
  "path_Dir p = path_Clean (rev (dropWhile (\<lambda>c. c \<noteq> CHR ''/'') (rev p)))"

text \<open>
  Modelled from the spec: package \<open>pathtools\<close> is not among the sources, and the spec
  does not describe it. \<open>HasPrefix\<close> is taken as the prefix test on slash-separated
  paths that respects the boundaries of path elements (the empty prefix is a prefix of
  every path), and \<open>TrimPrefix\<close> as the removal of such a prefix together with the
  slash after it, which is what makes \<open>isWellKnownProto\<close> accept
  \<open>google/protobuf/any.proto\<close> and the other imports of the case \<open>proto_wkt\<close> of
  the test table under one prefix.
\<close>

definition pathtools_HasPrefix :: "string \<Rightarrow> string \<Rightarrow> bool" where
  "pathtools_HasPrefix p pfx \<longleftrightarrow> pfx = [] \<or> p = pfx \<or> strings_HasPrefix p (pfx @ ''/'')"

definition pathtools_TrimPrefix :: "string \<Rightarrow> string \<Rightarrow> string" where
  "pathtools_TrimPrefix p pfx =
     (if pfx = [] then p
      else if pfx = p then []
      else strings_TrimPrefix p (pfx @ ''/''))"

section \<open>Labels\<close>

text \<open>
  Modelled from the spec: package \<open>label\<close> is not among the sources. A label is a
  repository (empty for the current workspace), a package path and a target name;
  equality is structural. \<open>Relative\<close> marks a label that \<open>Rel\<close> has stripped of
  repository and package because both matched the context; such a label prints as
  \<open>:name\<close>. The other printed forms are \<open>//pkg:name\<close> and \<open>@repo//pkg:name\<close>,
  and the printer abbreviates \<open>//pkg:name\<close> to \<open>//pkg\<close> when the last element of
  the package path is the target name: the test table of \<open>TestResolveGo\<close> expects
  \<open>//vendor/b/vendor/a\<close> for the rule \<open>a\<close> of package \<open>vendor/b/vendor/a\<close>
  (case \<open>nested_vendor\<close>) next to \<open>//a:a_lib\<close> (case \<open>different_package\<close>).
\<close>

record Label =
  Repo :: string
  Pkg :: string
  Name :: string
  Relative :: bool

definition label_New :: "string \<Rightarrow> string \<Rightarrow> string \<Rightarrow> Label" where
  "label_New repo pkg name = \<lparr>Repo = repo, Pkg = pkg, Name = name, Relative = False\<rparr>"

definition label_Equal :: "Label \<Rightarrow> Label \<Rightarrow> bool" where
  "label_Equal l other \<longleftrightarrow>
     Repo l = Repo other \<and> Pkg l = Pkg other \<and> Name l = Name other \<and> Relative l = Relative other"

definition label_Rel :: "Label \<Rightarrow> string \<Rightarrow> string \<Rightarrow> Label" where
  "label_Rel l repo pkg =
     (if Relative l \<or> Repo l \<noteq> repo then l
      else if Pkg l = pkg then \<lparr>Repo = [], Pkg = [], Name = Name l, Relative = True\<rparr>
      else \<lparr>Repo = [], Pkg = Pkg l, Name = Name l, Relative = False\<rparr>)"

definition label_String :: "Label \<Rightarrow> string" where
  "label_String l =
     (if Relative l then '':'' @ Name l
      else
        let repo = (if Repo l \<noteq> [] then ''@'' @ Repo l else [])
        in if path_Base (Pkg l) = Name l then repo @ ''//'' @ Pkg l
           else repo @ ''//'' @ Pkg l @ '':'' @ Name l)"

section \<open>The rule index\<close>

record ImportSpec =
  Lang :: string
  Imp :: string

text \<open>
  Modelled from the spec: package \<open>resolve\<close> (the rule index) is not among the sources.
  The sealed index is the list of registered rule records, each with its label, the
  language of its resolver and the import specifications it provides.
  \<open>FindRulesByImport\<close> returns, in index order, the records that provide the given
  specification, restricted to the given language.
\<close>

record ruleRecord =
  label :: Label
  lang :: string
  importedAs :: "ImportSpec list"

type_synonym RuleIndex = "ruleRecord list"

record FindResult =
  Label :: Label

definition FindRulesByImport :: "RuleIndex \<Rightarrow> ImportSpec \<Rightarrow> string \<Rightarrow> FindResult list" where
  "FindRulesByImport ix imp lng =
     map (\<lambda>m. \<lparr>Label = label m\<rparr>) (filter (\<lambda>m. imp \<in> set (importedAs m) \<and> lang m = lng) ix)"

section \<open>Rules\<close>

text \<open>
  Modelled from the spec: package \<open>rule\<close> is not among the sources. A rule carries
  attributes, which end up in the build file, and private attributes, which do not. The
  raw imports are the private attribute under \<open>config.GazelleImportsKey\<close>: a list of
  strings for a schema rule, a per-platform structure for a rule of the generic-module
  resolver (\<open>convertImportsAttr\<close> in the tests stores one or the other by kind).
\<close>

datatype attrValue = StringAttr string | StringsAttr "string list"

datatype privateValue = StringsValue "string list" | PlatformStringsValue "string list"

record Rule =
  attrs :: "string \<rightharpoonup> attrValue"
  privateAttrs :: "string \<rightharpoonup> privateValue"

definition PrivateAttr :: "Rule \<Rightarrow> string \<Rightarrow> privateValue option" where
  "PrivateAttr r key = privateAttrs r key"

definition SetPrivateAttr :: "Rule \<Rightarrow> string \<Rightarrow> privateValue \<Rightarrow> Rule" where
  "SetPrivateAttr r key v = r\<lparr>privateAttrs := (privateAttrs r)(key \<mapsto> v)\<rparr>"

definition DelAttr :: "Rule \<Rightarrow> string \<Rightarrow> Rule" where
  "DelAttr r key = r\<lparr>attrs := (attrs r)(key := None)\<rparr>"

definition SetAttr :: "Rule \<Rightarrow> string \<Rightarrow> attrValue \<Rightarrow> Rule" where
  "SetAttr r key v = r\<lparr>attrs := (attrs r)(key \<mapsto> v)\<rparr>"

definition Attr :: "Rule \<Rightarrow> string \<Rightarrow> attrValue option" where
  "Attr r key = attrs r key"

definition AttrStrings :: "Rule \<Rightarrow> string \<Rightarrow> string list" where
  "AttrStrings r key = (case attrs r key of Some (StringsAttr xs) \<Rightarrow> xs | _ \<Rightarrow> [])"

section \<open>The schema resolver\<close>

text \<open>
  The resolver reads three constants of package \<open>config\<close> and calls \<open>RuleName\<close> of its
  own package; none of the four is declared in the sources, so they are parameters of
  the model, collected in one record that every function below takes first.
\<close>

record env =
  WellKnownTypesProtoRepo :: string
  WellKnownTypesProtoPrefix :: string
  GazelleImportsKey :: string
  RuleName :: "string list \<Rightarrow> string"

text \<open>
  The errors of \<open>resolve.go\<close>: the two sentinels, and the two errors built with
  \<open>fmt.Errorf\<close>, which carry the arguments of their message. A Go function that
  returns a label and an error returns \<open>label.NoLabel\<close> beside every error; the
  model returns the error alone (\<open>Inl\<close>) or the label alone (\<open>Inr\<close>).
\<close>

datatype error =
    skipImportError
  | notFoundError
  | nonProtoError string
  | multipleRulesError Label Label string Label

definition isWellKnownProto :: "env \<Rightarrow> string \<Rightarrow> bool" where
  "isWellKnownProto e imp \<longleftrightarrow>
     pathtools_HasPrefix imp (WellKnownTypesProtoPrefix e) \<and>
     pathtools_TrimPrefix imp (WellKnownTypesProtoPrefix e) = path_Base imp"

definition resolveWithIndex :: "RuleIndex \<Rightarrow> string \<Rightarrow> Label \<Rightarrow> error + Label" where
  "resolveWithIndex ix imp frm =
     (let matches = FindRulesByImport ix \<lparr>Lang = ''proto'', Imp = imp\<rparr> ''proto''
      in if length matches = 0 then Inl notFoundError
         else if length matches > 1 then
           Inl (multipleRulesError (Label (matches ! 0)) (Label (matches ! 1)) imp frm)
         else if label_Equal frm (Label (matches ! 0)) then Inl skipImportError
         else Inr (Label (matches ! 0)))"

definition resolveProto :: "env \<Rightarrow> RuleIndex \<Rightarrow> Rule \<Rightarrow> string \<Rightarrow> Label \<Rightarrow> error + Label" where
  "resolveProto e ix r imp frm =
     (if \<not> strings_HasSuffix imp ''.proto'' then Inl (nonProtoError imp)
      else if isWellKnownProto e imp then
        (let name = path_Base (take (length imp - length ''.proto'') imp) @ ''_proto''
         in Inr (label_New (WellKnownTypesProtoRepo e) [] name))
      else
        (case resolveWithIndex ix imp frm of
           Inr l \<Rightarrow> Inr l
         | Inl err \<Rightarrow>
             if err = skipImportError then Inl err
             else if err \<noteq> notFoundError then Inl err
             else
               (let rel = path_Dir imp;
                    rel = (if rel = ''.'' then [] else rel);
                    name = RuleName e [[], rel, []]
                in Inr (label_New [] rel name))))"

text \<open>
  \<open>Resolve\<close> mutates the rule and prints to the log. The model returns the rule after
  the call together with the errors logged, in order; \<open>Panic\<close> is the failed type
  assertion on a raw-imports value that is not a list of strings. The body of the
  \<open>for\<close> loop is \<open>Resolve_loop\<close>, with the slice \<open>deps\<close> and the log as accumulators.
  The parameters \<open>c\<close> and \<open>rc\<close> are not used by the body and are left out.
\<close>

datatype outcome = Panic | Returned Rule "error list"

fun Resolve_loop ::
  "env \<Rightarrow> RuleIndex \<Rightarrow> Rule \<Rightarrow> Label \<Rightarrow> string list \<Rightarrow> string list \<Rightarrow> error list
     \<Rightarrow> string list \<times> error list" where
  "Resolve_loop e ix r frm [] deps lg = (deps, lg)"
| "Resolve_loop e ix r frm (imp # imports) deps lg =
     (case resolveProto e ix r imp frm of
        Inl err \<Rightarrow>
          if err = skipImportError then Resolve_loop e ix r frm imports deps lg
          else Resolve_loop e ix r frm imports deps (lg @ [err])
      | Inr l \<Rightarrow>
          Resolve_loop e ix r frm imports
            (deps @ [label_String (label_Rel l (Repo frm) (Pkg frm))]) lg)"

definition Resolve :: "env \<Rightarrow> RuleIndex \<Rightarrow> Rule \<Rightarrow> Label \<Rightarrow> outcome" where
  "Resolve e ix r frm =
     (case PrivateAttr r (GazelleImportsKey e) of
        None \<Rightarrow> Returned r []
      | Some (PlatformStringsValue x) \<Rightarrow> Panic
      | Some (StringsValue imports) \<Rightarrow>
          (let r1 = DelAttr r ''deps'';
               (deps, lg) = Resolve_loop e ix r1 frm imports [] []
           in if length deps > 0 then Returned (SetAttr r1 ''deps'' (StringsAttr deps)) lg
              else Returned r1 lg))"

text \<open>
  \<open>path.Join\<close> and the resolver's \<open>Imports\<close>: the import specifications a schema rule
  provides are its sources, each joined to the package directory \<open>rel\<close> of the build
  file (the source takes \<open>rel\<close> from the file; here it is an argument).
\<close>

fun joinSlash :: "string list \<Rightarrow> string" where
  "joinSlash [] = []"
| "joinSlash [x] = x"
| "joinSlash (x # y # ys) = x @ ''/'' @ joinSlash (y # ys)"

definition path_Join :: "string list \<Rightarrow> string" where
  "path_Join elem =
     (case dropWhile (\<lambda>x. x = []) elem of [] \<Rightarrow> [] | x # xs \<Rightarrow> path_Clean (joinSlash (x # xs)))"

definition Imports :: "string \<Rightarrow> Rule \<Rightarrow> ImportSpec list" where
  "Imports rel r = map (\<lambda>src. \<lparr>Lang = ''proto'', Imp = path_Join [rel, src]\<rparr>) (AttrStrings r ''srcs'')"

section \<open>The generic-module resolver: index lookup under the vendoring convention\<close>

text \<open>
  Modelled from the spec: the resolver of the generic-module language is not among the
  sources; of its index lookup the sources hold only the test table of
  \<open>TestResolveGo\<close>. The definitions follow step 3 of section 4.2 of the spec. The
  vendor-directory prefix of a candidate is the part of its package path before the last
  \<open>vendor\<close> element (\<open>vendor/b\<close> for the package \<open>vendor/b/vendor/a\<close> of the case
  \<open>nested_vendor\<close>); a candidate outside every vendor directory has none. The prefix
  counts for an importing rule when it is a prefix of that rule's package path, by whole
  path elements and the package itself included, as the spec's own example has it (the
  consumer in \<open>shallow/deep\<close>, the provider in \<open>shallow/deep/vendor\<close>); its length
  is then the vendor depth of the candidate for that rule. When the index returns more
  than one candidate, the candidates of greatest vendor depth are kept; when no
  candidate has a vendor depth, the candidates outside every vendor directory are kept
  (case \<open>vendor_not_visible\<close>). What is kept goes through the tie-break of section
  4.1: none is not found, one is the result unless it is the importing rule itself,
  several are an ambiguity.
\<close>

fun splitSlash :: "string \<Rightarrow> string list" where
  "splitSlash [] = [[]]"
| "splitSlash (c # cs) =
     (if c = CHR ''/'' then [] # splitSlash cs
      else (case splitSlash cs of [] \<Rightarrow> [[c]] | x # xs \<Rightarrow> (c # x) # xs))"

definition vendorPrefix :: "string \<Rightarrow> string option" where
  "vendorPrefix pkg =
     (let parts = splitSlash pkg
      in if ''vendor'' \<in> set parts
         then Some (joinSlash (rev (tl (dropWhile (\<lambda>x. x \<noteq> ''vendor'') (rev parts)))))
         else None)"

definition vendorDepth :: "FindResult \<Rightarrow> Label \<Rightarrow> nat option" where
  "vendorDepth m frm =
     (case vendorPrefix (Pkg (Label m)) of
        None \<Rightarrow> None
      | Some p \<Rightarrow> if pathtools_HasPrefix (Pkg frm) p then Some (length p) else None)"

definition narrowByVendor :: "FindResult list \<Rightarrow> Label \<Rightarrow> FindResult list" where
  "narrowByVendor matches frm =
     (let depths = List.map_filter (\<lambda>m. vendorDepth m frm) matches
      in if depths = [] then filter (\<lambda>m. vendorPrefix (Pkg (Label m)) = None) matches
         else filter (\<lambda>m. vendorDepth m frm = Some (fold max depths 0)) matches)"

definition tieBreak :: "FindResult list \<Rightarrow> string \<Rightarrow> Label \<Rightarrow> error + Label" where
  "tieBreak matches imp frm =
     (if length matches = 0 then Inl notFoundError
      else if length matches > 1 then
        Inl (multipleRulesError (Label (matches ! 0)) (Label (matches ! 1)) imp frm)
      else if label_Equal frm (Label (matches ! 0)) then Inl skipImportError
      else Inr (Label (matches ! 0)))"

definition resolveWithIndexGo :: "RuleIndex \<Rightarrow> string \<Rightarrow> Label \<Rightarrow> error + Label" where
  "resolveWithIndexGo ix imp frm =
     (let matches = FindRulesByImport ix \<lparr>Lang = ''go'', Imp = imp\<rparr> ''go''
      in tieBreak (if length matches > 1 then narrowByVendor matches frm else matches) imp frm)"

section \<open>Cases of the test tables\<close>

text \<open>
  An instance of the parameters, used to run the model on concrete rules: the prefix of
  the imports in the case \<open>proto_wkt\<close> of the test table, a repository name and a key
  for the raw imports, and a stand-in for \<open>RuleName\<close> that names the target after the
  last element of the first non-empty path (\<open>root\<close> when there is none).
\<close>

definition test_env :: env where
  "test_env =
     \<lparr>WellKnownTypesProtoRepo = ''com_google_protobuf'',
      WellKnownTypesProtoPrefix = ''google/protobuf'',
      GazelleImportsKey = ''_gazelle_imports'',
      RuleName = (\<lambda>names.
        (case filter (\<lambda>n. n \<noteq> []) names of [] \<Rightarrow> ''root'' | n # ns \<Rightarrow> path_Base n) @ ''_proto'')\<rparr>"

text \<open>
  \<open>test_rule name deps\<close> is a rule with a name and, when \<open>deps\<close> is given, a
  dependency attribute left by an earlier run; \<open>with_imports\<close> stores raw imports the
  way \<open>convertImportsAttr\<close> does for a \<open>proto_library\<close>.
\<close>

definition test_rule :: "string \<Rightarrow> string list option \<Rightarrow> Rule" where
  "test_rule name deps =
     \<lparr>attrs = (\<lambda>k. if k = ''name'' then Some (StringAttr name)
                      else if k = ''deps'' then map_option StringsAttr deps
                      else None),
      privateAttrs = Map.empty\<rparr>"

definition with_imports :: "Rule \<Rightarrow> string list \<Rightarrow> Rule" where
  "with_imports r imps = SetPrivateAttr r (GazelleImportsKey test_env) (StringsValue imps)"

text \<open>
  \<open>proto_rule pkg name srcs\<close> is the index record of the \<open>proto_library\<close> rule \<open>name\<close>
  of package \<open>pkg\<close> with the sources \<open>srcs\<close>. \<open>test_index\<close> has two rules providing
  \<open>foo/foo.proto\<close>, one rule each for \<open>sub/bar.proto\<close> and \<open>app/sib.proto\<close>, and a
  rule named after the last element of its package. \<open>wkt_index\<close> is a workspace that
  holds the well-known files itself, \<open>any.proto\<close> in two rules, and a rule with a source
  that is not a schema file.
\<close>

definition proto_rule :: "string \<Rightarrow> string \<Rightarrow> string list \<Rightarrow> ruleRecord" where
  "proto_rule pkg name srcs =
     \<lparr>label = label_New [] pkg name, lang = ''proto'',
      importedAs = Imports pkg
        \<lparr>attrs = (\<lambda>k. if k = ''srcs'' then Some (StringsAttr srcs) else None),
         privateAttrs = Map.empty\<rparr>\<rparr>"

definition test_index :: RuleIndex where
  "test_index =
     [proto_rule ''foo'' ''a'' [''foo.proto''],
      proto_rule ''foo'' ''b'' [''foo.proto''],
      proto_rule ''sub'' ''foo_proto'' [''bar.proto''],
      proto_rule ''app'' ''sib_proto'' [''sib.proto''],
      proto_rule ''lib/a'' ''a'' [''a.proto'']]"

definition wkt_index :: RuleIndex where
  "wkt_index =
     [proto_rule ''google/protobuf'' ''any_proto'' [''any.proto''],
      proto_rule ''google/protobuf'' ''wkt_proto'' [''any.proto'', ''api.proto''],
      proto_rule ''google/protobuf'' ''empty_proto'' [''empty.proto''],
      proto_rule ''docs'' ''docs_proto'' [''notes.txt'']]"

text \<open>
  \<open>go_rule pkg name importpath\<close> is the index record of a library rule of the
  generic-module language; the four indexes are those of the vendoring cases of the test
  table.
\<close>

definition go_rule :: "string \<Rightarrow> string \<Rightarrow> string \<Rightarrow> ruleRecord" where
  "go_rule pkg name importpath =
     \<lparr>label = label_New [] pkg name, lang = ''go'',
      importedAs = [\<lparr>Lang = ''go'', Imp = importpath\<rparr>]\<rparr>"

definition vendor_not_visible_index :: RuleIndex where
  "vendor_not_visible_index =
     [go_rule [] ''root'' ''example.com/foo'', go_rule ''a/vendor/foo'' ''vendored'' ''example.com/foo'']"

definition vendor_supercedes_nonvendor_index :: RuleIndex where
  "vendor_supercedes_nonvendor_index =
     [go_rule [] ''root'' ''example.com/foo'', go_rule ''vendor/foo'' ''vendored'' ''example.com/foo'']"

definition deep_vendor_shallow_vendor_index :: RuleIndex where
  "deep_vendor_shallow_vendor_index =
     [go_rule ''shallow/vendor'' ''shallow'' ''example.com/foo'',
      go_rule ''shallow/deep/vendor'' ''deep'' ''example.com/foo'']"

definition nested_vendor_index :: RuleIndex where
  "nested_vendor_index =
     [go_rule ''vendor/a'' ''a'' ''a'', go_rule ''vendor/b/vendor/a'' ''a'' ''a'']"

section \<open>The loop of Resolve\<close>

lemma resolveProto_rule_irrelevant: "resolveProto e ix r imp frm = resolveProto e ix r' imp frm"
  by (simp add: resolveProto_def)

lemma Resolve_loop_rule_irrelevant:
  "Resolve_loop e ix r frm imps deps lg = Resolve_loop e ix r' frm imps deps lg"
proof (induction imps arbitrary: deps lg)
  case Nil
  show ?case by simp
next
  case (Cons imp imps)
  have "resolveProto e ix r imp frm = resolveProto e ix r' imp frm"
    by (rule resolveProto_rule_irrelevant)
  then show ?case using Cons.IH by (simp split: sum.splits)
qed

lemma Resolve_loop_acc:
  "Resolve_loop e ix r frm imps deps lg =
     (deps @ fst (Resolve_loop e ix r frm imps [] []),
      lg @ snd (Resolve_loop e ix r frm imps [] []))"
proof (induction imps arbitrary: deps lg)
  case Nil
  show ?case by simp
next
  case (Cons imp imps)
  show ?case
  proof (cases "resolveProto e ix r imp frm")
    case (Inl err)
    show ?thesis
    proof (cases "err = skipImportError")
      case True
      with Inl show ?thesis using Cons.IH [of deps lg] by simp
    next
      case False
      with Inl show ?thesis
        using Cons.IH [of deps "lg @ [err]"] Cons.IH [of "[]" "[err]"] by simp
    qed
  next
    case (Inr l)
    then show ?thesis
      using Cons.IH [of "deps @ [label_String (label_Rel l (Repo frm) (Pkg frm))]" lg]
        Cons.IH [of "[label_String (label_Rel l (Repo frm) (Pkg frm))]" "[]"]
      by simp
  qed
qed

lemma Resolve_loop_append:
  "Resolve_loop e ix r frm (xs @ ys) deps lg =
     (case Resolve_loop e ix r frm xs deps lg of (d, l) \<Rightarrow> Resolve_loop e ix r frm ys d l)"
  by (induction xs arbitrary: deps lg) (simp_all split: sum.splits)

lemma PrivateAttr_DelAttr [simp]: "PrivateAttr (DelAttr r k) key = PrivateAttr r key"
  by (simp add: PrivateAttr_def DelAttr_def)

lemma PrivateAttr_SetAttr [simp]: "PrivateAttr (SetAttr r k v) key = PrivateAttr r key"
  by (simp add: PrivateAttr_def SetAttr_def)

lemma PrivateAttr_SetPrivateAttr [simp]: "PrivateAttr (SetPrivateAttr r key v) key = Some v"
  by (simp add: PrivateAttr_def SetPrivateAttr_def)

lemma attrs_SetPrivateAttr [simp]: "attrs (SetPrivateAttr r key v) = attrs r"
  by (simp add: SetPrivateAttr_def)

lemma Attr_DelAttr [simp]: "Attr (DelAttr r k) k' = (if k' = k then None else Attr r k')"
  by (simp add: Attr_def DelAttr_def)

lemma Attr_SetAttr [simp]: "Attr (SetAttr r k v) k' = (if k' = k then Some v else Attr r k')"
  by (simp add: Attr_def SetAttr_def)

lemma Resolve_strings:
  assumes "PrivateAttr r (GazelleImportsKey e) = Some (StringsValue imps)"
  shows "Resolve e ix r frm =
     Returned
       (if fst (Resolve_loop e ix r frm imps [] []) = [] then DelAttr r ''deps''
        else SetAttr (DelAttr r ''deps'') ''deps''
               (StringsAttr (fst (Resolve_loop e ix r frm imps [] []))))
       (snd (Resolve_loop e ix r frm imps [] []))"
proof -
  have "Resolve_loop e ix (DelAttr r ''deps'') frm imps [] [] =
        Resolve_loop e ix r frm imps [] []"
    by (rule Resolve_loop_rule_irrelevant)
  then show ?thesis using assms
    by (simp add: Resolve_def Let_def split: prod.splits)
qed

section \<open>Absent raw imports\<close>

text \<open>
  C9. When the private attribute holding the raw imports is absent, \<open>Resolve\<close> returns
  at once: the rule is the one it was given, a dependency attribute left by an earlier
  run included, and nothing is logged. When the attribute holds a list of strings,
  empty or not, the dependency attribute is deleted before anything else: the outcome is
  that of resolving the rule with the attribute already deleted, and with no import at
  all the rule is left without a dependency attribute.
\<close>

theorem Resolve_absent_imports_unchanged:
  "(PrivateAttr r (GazelleImportsKey e) = None \<longrightarrow> Resolve e ix r frm = Returned r []) \<and>
   (PrivateAttr r (GazelleImportsKey e) = Some (StringsValue imps) \<longrightarrow>
      Resolve e ix r frm = Resolve e ix (DelAttr r ''deps'') frm \<and>
      (imps = [] \<longrightarrow> Resolve e ix r frm = Returned (DelAttr r ''deps'') []))"
proof (intro conjI impI)
  assume "PrivateAttr r (GazelleImportsKey e) = None"
  then show "Resolve e ix r frm = Returned r []" by (simp add: Resolve_def)
next
  assume p: "PrivateAttr r (GazelleImportsKey e) = Some (StringsValue imps)"
  then have p': "PrivateAttr (DelAttr r ''deps'') (GazelleImportsKey e) = Some (StringsValue imps)"
    by simp
  have loop: "Resolve_loop e ix (DelAttr r ''deps'') frm imps [] [] =
              Resolve_loop e ix r frm imps [] []"
    by (rule Resolve_loop_rule_irrelevant)
  have del: "DelAttr (DelAttr r ''deps'') ''deps'' = DelAttr r ''deps''"
    by (simp add: DelAttr_def)
  show "Resolve e ix r frm = Resolve e ix (DelAttr r ''deps'') frm"
    unfolding Resolve_strings [OF p] Resolve_strings [OF p'] loop del by (rule refl)
  assume "imps = []"
  with p show "Resolve e ix r frm = Returned (DelAttr r ''deps'') []"
    by (simp add: Resolve_strings)
qed

theorem Resolve_absent_imports_unchanged_witness:
  "PrivateAttr (test_rule ''dep_proto'' (Some ['':stale''])) (GazelleImportsKey test_env) = None \<and>
   Resolve test_env [] (test_rule ''dep_proto'' (Some ['':stale''])) (label_New [] [] ''dep_proto'')
     = Returned (test_rule ''dep_proto'' (Some ['':stale''])) [] \<and>
   Attr (test_rule ''dep_proto'' (Some ['':stale''])) ''deps'' = Some (StringsAttr ['':stale'']) \<and>
   Resolve test_env [] (with_imports (test_rule ''dep_proto'' (Some ['':stale''])) [])
       (label_New [] [] ''dep_proto'')
     = Returned (DelAttr (with_imports (test_rule ''dep_proto'' (Some ['':stale''])) []) ''deps'') [] \<and>
   Attr (DelAttr (with_imports (test_rule ''dep_proto'' (Some ['':stale''])) []) ''deps'') ''deps'' = None"
proof -
  let ?r = "test_rule ''dep_proto'' (Some ['':stale''])"
  let ?frm = "label_New [] [] ''dep_proto''"
  have absent: "PrivateAttr ?r (GazelleImportsKey test_env) = None"
    by (simp add: PrivateAttr_def test_rule_def)
  have present: "PrivateAttr (with_imports ?r []) (GazelleImportsKey test_env) = Some (StringsValue [])"
    by (simp add: with_imports_def)
  have stale: "Attr ?r ''deps'' = Some (StringsAttr ['':stale''])"
    by (simp add: Attr_def test_rule_def)
  have one: "Resolve test_env [] ?r ?frm = Returned ?r []"
    using Resolve_absent_imports_unchanged [of ?r test_env "[]" ?frm "[]"] absent by blast
  have two: "Resolve test_env [] (with_imports ?r []) ?frm
               = Returned (DelAttr (with_imports ?r []) ''deps'') []"
    using Resolve_absent_imports_unchanged [of "with_imports ?r []" test_env "[]" ?frm "[]"] present
    by blast
  have gone: "Attr (DelAttr (with_imports ?r []) ''deps'') ''deps'' = None"
    by simp
  from absent one stale two gone show ?thesis by blast
qed

section \<open>Recognising the well-known paths\<close>

lemma path_Base_nonempty: "path_Base p \<noteq> []"
  by (simp add: path_Base_def Let_def)

lemma path_Base_slash:
  assumes "CHR ''/'' \<in> set (path_Base p)"
  shows "path_Base p = ''/''"
proof (rule ccontr)
  assume n: "path_Base p \<noteq> ''/''"
  let ?p1 = "rev (dropWhile (\<lambda>c. c = CHR ''/'') (rev p))"
  let ?p2 = "rev (takeWhile (\<lambda>c. c \<noteq> CHR ''/'') (rev ?p1))"
  from n assms have "p \<noteq> []" by (auto simp: path_Base_def)
  with n have "path_Base p = ?p2" by (simp add: path_Base_def Let_def split: if_splits)
  with assms have "CHR ''/'' \<in> set (takeWhile (\<lambda>c. c \<noteq> CHR ''/'') (rev ?p1))" by simp
  then show False by (auto dest: set_takeWhileD)
qed

lemma strings_prefix_split:
  "strings_HasPrefix s pre \<and> strings_TrimPrefix s pre = t \<longleftrightarrow> s = pre @ t"
proof
  assume h: "strings_HasPrefix s pre \<and> strings_TrimPrefix s pre = t"
  then have "take (length pre) s = pre" and "drop (length pre) s = t"
    by (auto simp: strings_HasPrefix_def strings_TrimPrefix_def split: if_splits)
  then show "s = pre @ t" using append_take_drop_id [of "length pre" s] by simp
next
  assume "s = pre @ t"
  then show "strings_HasPrefix s pre \<and> strings_TrimPrefix s pre = t"
    by (simp add: strings_HasPrefix_def strings_TrimPrefix_def)
qed

lemma isWellKnownProto_iff:
  "isWellKnownProto e imp \<longleftrightarrow>
     imp = (if WellKnownTypesProtoPrefix e = [] then path_Base imp
            else WellKnownTypesProtoPrefix e @ ''/'' @ path_Base imp)"
proof (cases "WellKnownTypesProtoPrefix e = []")
  case True
  then show ?thesis
    by (auto simp: isWellKnownProto_def pathtools_HasPrefix_def pathtools_TrimPrefix_def)
next
  case False
  note ne = this
  show ?thesis
  proof (cases "imp = WellKnownTypesProtoPrefix e")
    case True
    with ne path_Base_nonempty [of imp] show ?thesis
      by (auto simp: isWellKnownProto_def pathtools_HasPrefix_def pathtools_TrimPrefix_def)
  next
    case False
    then have neq: "WellKnownTypesProtoPrefix e \<noteq> imp" by blast
    have "isWellKnownProto e imp \<longleftrightarrow>
            strings_HasPrefix imp (WellKnownTypesProtoPrefix e @ ''/'') \<and>
            strings_TrimPrefix imp (WellKnownTypesProtoPrefix e @ ''/'') = path_Base imp"
      using ne False neq
      by (simp add: isWellKnownProto_def pathtools_HasPrefix_def pathtools_TrimPrefix_def)
    also have "\<dots> \<longleftrightarrow> imp = (WellKnownTypesProtoPrefix e @ ''/'') @ path_Base imp"
      by (rule strings_prefix_split)
    finally show ?thesis using ne by simp
  qed
qed

lemma strings_HasSuffix_iff: "strings_HasSuffix s suf \<longleftrightarrow> (\<exists>t. s = t @ suf)"
proof
  assume "strings_HasSuffix s suf"
  then have "drop (length s - length suf) s = suf"
    by (simp add: strings_HasSuffix_def)
  then have "s = take (length s - length suf) s @ suf"
    using append_take_drop_id [of "length s - length suf" s] by simp
  then show "\<exists>t. s = t @ suf" ..
next
  assume "\<exists>t. s = t @ suf"
  then show "strings_HasSuffix s suf"
    by (auto simp: strings_HasSuffix_def)
qed

lemma HasSuffix_last:
  assumes "strings_HasSuffix s ''.proto''"
  shows "s \<noteq> [] \<and> last s = CHR ''o''"
proof -
  from assms obtain t where "s = t @ ''.proto''"
    unfolding strings_HasSuffix_iff ..
  then show ?thesis by simp
qed

lemma deeper_not_well_known:
  assumes suf: "strings_HasSuffix imp ''.proto''"
    and imp: "imp = WellKnownTypesProtoPrefix e @ ''/'' @ rest"
    and deep: "CHR ''/'' \<in> set rest"
  shows "\<not> isWellKnownProto e imp"
proof
  assume wk: "isWellKnownProto e imp"
  have slash: "CHR ''/'' \<in> set (path_Base imp)"
  proof (cases "WellKnownTypesProtoPrefix e = []")
    case True
    with wk have "imp = path_Base imp" by (simp add: isWellKnownProto_iff)
    moreover from imp have "CHR ''/'' \<in> set imp" by simp
    ultimately show ?thesis by simp
  next
    case False
    with wk have "imp = WellKnownTypesProtoPrefix e @ ''/'' @ path_Base imp"
      by (simp add: isWellKnownProto_iff)
    with imp have "rest = path_Base imp" by simp
    with deep show ?thesis by simp
  qed
  then have b: "path_Base imp = ''/''" by (rule path_Base_slash)
  have "last imp = CHR ''/''"
  proof (cases "WellKnownTypesProtoPrefix e = []")
    case True
    with wk b show ?thesis by (simp add: isWellKnownProto_iff)
  next
    case False
    with wk have "imp = WellKnownTypesProtoPrefix e @ ''/'' @ path_Base imp"
      by (simp add: isWellKnownProto_iff)
    with b have "imp = (WellKnownTypesProtoPrefix e @ ''/'') @ ''/''" by simp
    then show ?thesis by (metis last_snoc)
  qed
  with HasSuffix_last [OF suf] show False by simp
qed


lemma resolveWithIndex_nil:
  assumes "FindRulesByImport ix \<lparr>Lang = ''proto'', Imp = imp\<rparr> ''proto'' = []"
  shows "resolveWithIndex ix imp frm = Inl notFoundError"
  using assms by (simp add: resolveWithIndex_def)

lemma resolveWithIndex_many:
  assumes "1 < length (FindRulesByImport ix \<lparr>Lang = ''proto'', Imp = imp\<rparr> ''proto'')"
  shows "resolveWithIndex ix imp frm =
           Inl (multipleRulesError
                  (Label (FindRulesByImport ix \<lparr>Lang = ''proto'', Imp = imp\<rparr> ''proto'' ! 0))
                  (Label (FindRulesByImport ix \<lparr>Lang = ''proto'', Imp = imp\<rparr> ''proto'' ! 1))
                  imp frm)"
  using assms by (auto simp: resolveWithIndex_def Let_def)

lemma resolveWithIndex_self:
  assumes "FindRulesByImport ix \<lparr>Lang = ''proto'', Imp = imp\<rparr> ''proto'' = [m]"
    and "label_Equal frm (Label m)"
  shows "resolveWithIndex ix imp frm = Inl skipImportError"
  using assms by (simp add: resolveWithIndex_def)

lemma resolveProto_index:
  assumes "strings_HasSuffix imp ''.proto''" and "\<not> isWellKnownProto e imp"
  shows "resolveProto e ix r imp frm =
           (case resolveWithIndex ix imp frm of
              Inr l \<Rightarrow> Inr l
            | Inl err \<Rightarrow>
                if err = notFoundError then
                  Inr (label_New [] (if path_Dir imp = ''.'' then [] else path_Dir imp)
                         (RuleName e [[], if path_Dir imp = ''.'' then [] else path_Dir imp, []]))
                else Inl err)"
  using assms by (auto simp: resolveProto_def Let_def split: sum.splits)

section \<open>Well-known imports, index lookup and fallback\<close>

text \<open>
  C3. An import that ends in \<open>.proto\<close> and is recognised as a well-known path resolves
  to the label in the well-known-types repository, with the empty package, whose name is
  the base name of the import without its extension followed by \<open>_proto\<close>. The index
  is not consulted: the result is the one obtained with the empty index.
\<close>

theorem resolveProto_well_known:
  assumes "strings_HasSuffix imp ''.proto''" and "isWellKnownProto e imp"
  shows "resolveProto e ix r imp frm =
           Inr (label_New (WellKnownTypesProtoRepo e) []
                  (path_Base (take (length imp - length ''.proto'') imp) @ ''_proto'')) \<and>
         resolveProto e ix r imp frm = resolveProto e [] r imp frm"
  using assms by (simp add: resolveProto_def)

theorem resolveProto_well_known_witness:
  "strings_HasSuffix ''google/protobuf/any.proto'' ''.proto'' \<and>
   isWellKnownProto test_env ''google/protobuf/any.proto'' \<and>
   resolveProto test_env wkt_index
       (test_rule ''dep_proto'' None) ''google/protobuf/any.proto'' (label_New [] [] ''dep_proto'')
     = Inr (label_New ''com_google_protobuf'' [] ''any_proto'')"
proof -
  have suf: "strings_HasSuffix ''google/protobuf/any.proto'' ''.proto''"
    by code_simp
  have wk: "isWellKnownProto test_env ''google/protobuf/any.proto''"
    by code_simp
  have repo: "WellKnownTypesProtoRepo test_env = ''com_google_protobuf''"
    by (simp add: test_env_def)
  have name: "path_Base (take (length ''google/protobuf/any.proto'' - length ''.proto'')
                ''google/protobuf/any.proto'') @ ''_proto'' = ''any_proto''"
    by code_simp
  from resolveProto_well_known [OF suf wk] suf wk show ?thesis
    unfolding repo name by blast
qed

text \<open>
  C5. An import that ends in \<open>.proto\<close>, is not well-known and has no provider in the
  index resolves to a label of the current workspace whose package is the directory of
  the import (\<open>path.Dir\<close>, with \<open>.\<close> replaced by the empty package of the root) and
  whose name is \<open>RuleName\<close> of that directory.
\<close>

theorem resolveProto_fallback:
  assumes "strings_HasSuffix imp ''.proto''"
    and "\<not> isWellKnownProto e imp"
    and "FindRulesByImport ix \<lparr>Lang = ''proto'', Imp = imp\<rparr> ''proto'' = []"
  shows "resolveProto e ix r imp frm =
           Inr (label_New [] (if path_Dir imp = ''.'' then [] else path_Dir imp)
                  (RuleName e [[], if path_Dir imp = ''.'' then [] else path_Dir imp, []]))"
  using assms(1,2) resolveWithIndex_nil [OF assms(3)]
  by (simp add: resolveProto_index)

theorem resolveProto_fallback_witness:
  "strings_HasSuffix ''sub/dir/bar.proto'' ''.proto'' \<and>
   \<not> isWellKnownProto test_env ''sub/dir/bar.proto'' \<and>
   FindRulesByImport test_index
     \<lparr>Lang = ''proto'', Imp = ''sub/dir/bar.proto''\<rparr> ''proto'' = [] \<and>
   resolveProto test_env test_index
       (test_rule ''dep_proto'' None) ''sub/dir/bar.proto'' (label_New [] [] ''dep_proto'')
     = Inr (label_New [] ''sub/dir'' ''dir_proto'') \<and>
   resolveProto test_env [] (test_rule ''dep_proto'' None) ''bar.proto'' (label_New [] [] ''dep_proto'')
     = Inr (label_New [] [] ''root_proto'')"
proof -
  let ?ix = "test_index"
  have suf: "strings_HasSuffix ''sub/dir/bar.proto'' ''.proto''"
    by code_simp
  have nwk: "\<not> isWellKnownProto test_env ''sub/dir/bar.proto''"
    by code_simp
  have none: "FindRulesByImport ?ix \<lparr>Lang = ''proto'', Imp = ''sub/dir/bar.proto''\<rparr> ''proto'' = []"
    by code_simp
  have dir: "path_Dir ''sub/dir/bar.proto'' = ''sub/dir''"
    by code_simp
  have name: "RuleName test_env [[], ''sub/dir'', []] = ''dir_proto''"
    by code_simp
  have suf0: "strings_HasSuffix ''bar.proto'' ''.proto''"
    by code_simp
  have nwk0: "\<not> isWellKnownProto test_env ''bar.proto''"
    by code_simp
  have none0: "FindRulesByImport [] \<lparr>Lang = ''proto'', Imp = ''bar.proto''\<rparr> ''proto'' = []"
    by code_simp
  have dir0: "path_Dir ''bar.proto'' = ''.''"
    by code_simp
  have name0: "RuleName test_env [[], [], []] = ''root_proto''"
    by code_simp
  have one: "resolveProto test_env ?ix (test_rule ''dep_proto'' None) ''sub/dir/bar.proto''
               (label_New [] [] ''dep_proto'') = Inr (label_New [] ''sub/dir'' ''dir_proto'')"
    using resolveProto_fallback [OF suf nwk none] by (simp add: dir name)
  have two: "resolveProto test_env [] (test_rule ''dep_proto'' None) ''bar.proto''
               (label_New [] [] ''dep_proto'') = Inr (label_New [] [] ''root_proto'')"
    using resolveProto_fallback [OF suf0 nwk0 none0] by (simp add: dir0 name0)
  from suf nwk none one two show ?thesis by blast
qed

text \<open>
  C10. An import is well-known exactly when it is the well-known prefix, a slash and
  the import's own base name (for an empty prefix: the base name alone), that is, when
  the file lies directly under the prefix. An import ending in \<open>.proto\<close> that lies in a
  subdirectory beneath the prefix is not well-known: it is resolved by the index lookup
  and, when the index has no provider, by the same-directory fallback.
\<close>

theorem isWellKnownProto_directly_under_prefix:
  "(isWellKnownProto e imp \<longleftrightarrow>
      imp = (if WellKnownTypesProtoPrefix e = [] then path_Base imp
             else WellKnownTypesProtoPrefix e @ ''/'' @ path_Base imp)) \<and>
   (strings_HasSuffix imp ''.proto'' \<and> imp = WellKnownTypesProtoPrefix e @ ''/'' @ rest \<and>
    CHR ''/'' \<in> set rest \<longrightarrow>
      \<not> isWellKnownProto e imp \<and>
      resolveProto e ix r imp frm =
        (case resolveWithIndex ix imp frm of
           Inr l \<Rightarrow> Inr l
         | Inl err \<Rightarrow>
             if err = notFoundError then
               Inr (label_New [] (if path_Dir imp = ''.'' then [] else path_Dir imp)
                      (RuleName e [[], if path_Dir imp = ''.'' then [] else path_Dir imp, []]))
             else Inl err))"
proof (intro conjI impI)
  show "isWellKnownProto e imp \<longleftrightarrow>
      imp = (if WellKnownTypesProtoPrefix e = [] then path_Base imp
             else WellKnownTypesProtoPrefix e @ ''/'' @ path_Base imp)"
    by (rule isWellKnownProto_iff)
next
  assume h: "strings_HasSuffix imp ''.proto'' \<and> imp = WellKnownTypesProtoPrefix e @ ''/'' @ rest \<and>
    CHR ''/'' \<in> set rest"
  then show nwk: "\<not> isWellKnownProto e imp"
    using deeper_not_well_known [of imp e rest] by blast
  from h have suf: "strings_HasSuffix imp ''.proto''" by blast
  from suf nwk show "resolveProto e ix r imp frm =
        (case resolveWithIndex ix imp frm of
           Inr l \<Rightarrow> Inr l
         | Inl err \<Rightarrow>
             if err = notFoundError then
               Inr (label_New [] (if path_Dir imp = ''.'' then [] else path_Dir imp)
                      (RuleName e [[], if path_Dir imp = ''.'' then [] else path_Dir imp, []]))
             else Inl err)"
    by (rule resolveProto_index)
qed

theorem isWellKnownProto_directly_under_prefix_witness:
  "isWellKnownProto test_env ''google/protobuf/any.proto'' \<and>
   ''google/protobuf/any.proto'' = WellKnownTypesProtoPrefix test_env @ ''/'' @ path_Base ''google/protobuf/any.proto'' \<and>
   strings_HasSuffix ''google/protobuf/compiler/plugin.proto'' ''.proto'' \<and>
   CHR ''/'' \<in> set ''compiler/plugin.proto'' \<and>
   \<not> isWellKnownProto test_env ''google/protobuf/compiler/plugin.proto'' \<and>
   resolveProto test_env [] (test_rule ''dep_proto'' None) ''google/protobuf/compiler/plugin.proto''
       (label_New [] [] ''dep_proto'')
     = Inr (label_New [] ''google/protobuf/compiler'' ''compiler_proto'')"
proof -
  let ?imp = "''google/protobuf/compiler/plugin.proto''"
  have wk: "isWellKnownProto test_env ''google/protobuf/any.proto''"
    by code_simp
  have pfx: "WellKnownTypesProtoPrefix test_env = ''google/protobuf''"
    by (simp add: test_env_def)
  have eq: "''google/protobuf/any.proto'' =
              WellKnownTypesProtoPrefix test_env @ ''/'' @ path_Base ''google/protobuf/any.proto''"
    using isWellKnownProto_directly_under_prefix [of test_env "''google/protobuf/any.proto''"] wk pfx
    by simp
  have suf: "strings_HasSuffix ?imp ''.proto''"
    by code_simp
  have under: "?imp = WellKnownTypesProtoPrefix test_env @ ''/'' @ ''compiler/plugin.proto''"
    by (simp add: pfx)
  have deep: "CHR ''/'' \<in> set ''compiler/plugin.proto''"
    by simp
  have ix: "resolveWithIndex [] ?imp (label_New [] [] ''dep_proto'') = Inl notFoundError"
    by code_simp
  have dir: "path_Dir ?imp = ''google/protobuf/compiler''"
    by code_simp
  have name: "RuleName test_env [[], ''google/protobuf/compiler'', []] = ''compiler_proto''"
    by code_simp
  note inst = isWellKnownProto_directly_under_prefix
    [of test_env ?imp "''compiler/plugin.proto''" "[]" "test_rule ''dep_proto'' None"
      "label_New [] [] ''dep_proto''"]
  from inst suf under deep have nwk: "\<not> isWellKnownProto test_env ?imp"
    by blast
  from inst suf under deep
  have "resolveProto test_env [] (test_rule ''dep_proto'' None) ?imp (label_New [] [] ''dep_proto'') =
        (case resolveWithIndex [] ?imp (label_New [] [] ''dep_proto'') of
           Inr l \<Rightarrow> Inr l
         | Inl err \<Rightarrow>
             if err = notFoundError then
               Inr (label_New [] (if path_Dir ?imp = ''.'' then [] else path_Dir ?imp)
                      (RuleName test_env [[], if path_Dir ?imp = ''.'' then [] else path_Dir ?imp, []]))
             else Inl err)"
    by blast
  then have res: "resolveProto test_env [] (test_rule ''dep_proto'' None) ?imp
                    (label_New [] [] ''dep_proto'')
                  = Inr (label_New [] ''google/protobuf/compiler'' ''compiler_proto'')"
    by (simp add: ix dir name)
  from wk eq suf deep nwk res show ?thesis by blast
qed

section \<open>Resolving a whole rule\<close>

lemma attrs_DelAttr [simp]: "attrs (DelAttr r k) = (attrs r)(k := None)"
  by (simp add: DelAttr_def)

lemma attrs_SetAttr [simp]: "attrs (SetAttr r k v) = (attrs r)(k \<mapsto> v)"
  by (simp add: SetAttr_def)

lemma Resolve_loop_append_closed:
  "Resolve_loop e ix r frm (pre @ post) [] [] =
     (fst (Resolve_loop e ix r frm pre [] []) @ fst (Resolve_loop e ix r frm post [] []),
      snd (Resolve_loop e ix r frm pre [] []) @ snd (Resolve_loop e ix r frm post [] []))"
proof -
  obtain d l where pre: "Resolve_loop e ix r frm pre [] [] = (d, l)"
    by (cases "Resolve_loop e ix r frm pre [] []")
  have "Resolve_loop e ix r frm (pre @ post) [] [] = Resolve_loop e ix r frm post d l"
    by (simp add: Resolve_loop_append pre)
  also have "\<dots> = (d @ fst (Resolve_loop e ix r frm post [] []),
                     l @ snd (Resolve_loop e ix r frm post [] []))"
    by (rule Resolve_loop_acc)
  finally show ?thesis by (simp add: pre)
qed

lemma Resolve_loop_skip_error:
  assumes "resolveProto e ix r imp frm = Inl err"
  shows "Resolve_loop e ix r frm (pre @ imp # post) [] [] =
     (fst (Resolve_loop e ix r frm pre [] []) @ fst (Resolve_loop e ix r frm post [] []),
      snd (Resolve_loop e ix r frm pre [] []) @ (if err = skipImportError then [] else [err]) @
        snd (Resolve_loop e ix r frm post [] []))"
proof -
  have one: "Resolve_loop e ix r frm (imp # post) [] [] =
               (fst (Resolve_loop e ix r frm post [] []),
                (if err = skipImportError then [] else [err]) @ snd (Resolve_loop e ix r frm post [] []))"
  proof (cases "err = skipImportError")
    case True
    with assms show ?thesis by simp
  next
    case False
    with assms have "Resolve_loop e ix r frm (imp # post) [] [] = Resolve_loop e ix r frm post [] [err]"
      by simp
    also have "\<dots> = ([] @ fst (Resolve_loop e ix r frm post [] []),
                       [err] @ snd (Resolve_loop e ix r frm post [] []))"
      by (rule Resolve_loop_acc)
    finally show ?thesis using False by simp
  qed
  show ?thesis
    unfolding Resolve_loop_append_closed [of e ix r frm pre "imp # post"] one by simp
qed

lemma Resolve_without_import:
  assumes p: "PrivateAttr r (GazelleImportsKey e) = Some (StringsValue (pre @ imp # post))"
    and err: "resolveProto e ix r imp frm = Inl err"
  shows "\<exists>r' r0 l1 l2.
           Resolve e ix r frm = Returned r' (l1 @ (if err = skipImportError then [] else [err]) @ l2) \<and>
           Resolve e ix (SetPrivateAttr r (GazelleImportsKey e) (StringsValue (pre @ post))) frm
             = Returned r0 (l1 @ l2) \<and>
           attrs r' = attrs r0"
proof -
  let ?rw = "SetPrivateAttr r (GazelleImportsKey e) (StringsValue (pre @ post))"
  let ?d = "fst (Resolve_loop e ix r frm pre [] []) @ fst (Resolve_loop e ix r frm post [] [])"
  let ?l1 = "snd (Resolve_loop e ix r frm pre [] [])"
  let ?l2 = "snd (Resolve_loop e ix r frm post [] [])"
  have p0: "PrivateAttr ?rw (GazelleImportsKey e) = Some (StringsValue (pre @ post))"
    by simp
  have loop0: "Resolve_loop e ix ?rw frm (pre @ post) [] [] = (?d, ?l1 @ ?l2)"
    unfolding Resolve_loop_rule_irrelevant [of e ix ?rw frm "pre @ post" "[]" "[]" r]
    by (rule Resolve_loop_append_closed)
  have loop: "Resolve_loop e ix r frm (pre @ imp # post) [] [] =
                (?d, ?l1 @ (if err = skipImportError then [] else [err]) @ ?l2)"
    using err by (rule Resolve_loop_skip_error)
  have a: "Resolve e ix r frm =
             Returned (if ?d = [] then DelAttr r ''deps''
                       else SetAttr (DelAttr r ''deps'') ''deps'' (StringsAttr ?d))
               (?l1 @ (if err = skipImportError then [] else [err]) @ ?l2)"
    unfolding Resolve_strings [OF p] loop by simp
  have b: "Resolve e ix ?rw frm =
             Returned (if ?d = [] then DelAttr ?rw ''deps''
                       else SetAttr (DelAttr ?rw ''deps'') ''deps'' (StringsAttr ?d))
               (?l1 @ ?l2)"
    unfolding Resolve_strings [OF p0] loop0 by simp
  have c: "attrs (if ?d = [] then DelAttr r ''deps''
                  else SetAttr (DelAttr r ''deps'') ''deps'' (StringsAttr ?d)) =
           attrs (if ?d = [] then DelAttr ?rw ''deps''
                  else SetAttr (DelAttr ?rw ''deps'') ''deps'' (StringsAttr ?d))"
    by simp
  from a b c show ?thesis by blast
qed

text \<open>
  C6. When the raw imports are a list of strings, \<open>Resolve\<close> returns a rule on which a
  second run, with the same index and the same raw imports, returns the same rule and
  the same log: the dependency list is identical both times. The dependency attribute
  of the result is the list the loop computed when that list is not empty; when it is
  empty the attribute is absent, whatever the rule carried before, and never present with
  an empty list.
\<close>

theorem Resolve_idempotent:
  assumes "PrivateAttr r (GazelleImportsKey e) = Some (StringsValue imps)"
  shows "\<exists>r' lg. Resolve e ix r frm = Returned r' lg \<and> Resolve e ix r' frm = Returned r' lg \<and>
           AttrStrings r' ''deps'' = fst (Resolve_loop e ix r frm imps [] []) \<and>
           Attr r' ''deps'' =
             (if fst (Resolve_loop e ix r frm imps [] []) = [] then None
              else Some (StringsAttr (fst (Resolve_loop e ix r frm imps [] []))))"
proof -
  let ?ds = "fst (Resolve_loop e ix r frm imps [] [])"
  let ?lg = "snd (Resolve_loop e ix r frm imps [] [])"
  let ?r' = "if ?ds = [] then DelAttr r ''deps''
             else SetAttr (DelAttr r ''deps'') ''deps'' (StringsAttr ?ds)"
  have first: "Resolve e ix r frm = Returned ?r' ?lg"
    using assms by (rule Resolve_strings)
  have p': "PrivateAttr ?r' (GazelleImportsKey e) = Some (StringsValue imps)"
    using assms by simp
  have loop': "Resolve_loop e ix ?r' frm imps [] [] = Resolve_loop e ix r frm imps [] []"
    by (rule Resolve_loop_rule_irrelevant)
  have del: "DelAttr ?r' ''deps'' = DelAttr r ''deps''"
    by (simp add: DelAttr_def SetAttr_def)
  have second: "Resolve e ix ?r' frm = Returned ?r' ?lg"
    unfolding Resolve_strings [OF p'] loop' del by (rule refl)
  have strs: "AttrStrings ?r' ''deps'' = ?ds"
    by (simp add: AttrStrings_def)
  have attr: "Attr ?r' ''deps'' = (if ?ds = [] then None else Some (StringsAttr ?ds))"
    by simp
  from first second strs attr show ?thesis by blast
qed

theorem Resolve_idempotent_witness:
  "(\<exists>r' lg.
      Resolve test_env test_index
        (with_imports (test_rule ''dep_proto'' (Some ['':stale''])) [''sub/bar.proto''])
        (label_New [] [] ''dep_proto'') = Returned r' lg \<and>
      Resolve test_env test_index r'
        (label_New [] [] ''dep_proto'') = Returned r' lg \<and>
      AttrStrings r' ''deps'' = [''//sub:foo_proto'']) \<and>
   (\<exists>r' lg.
      Resolve test_env test_index
        (with_imports (test_rule ''foo_proto'' (Some ['':stale''])) [''sub/bar.proto''])
        (label_New [] ''sub'' ''foo_proto'') = Returned r' lg \<and>
      Resolve test_env test_index r'
        (label_New [] ''sub'' ''foo_proto'') = Returned r' lg \<and>
      Attr r' ''deps'' = None)"
proof -
  let ?ix = "test_index"
  let ?r1 = "with_imports (test_rule ''dep_proto'' (Some ['':stale''])) [''sub/bar.proto'']"
  let ?r2 = "with_imports (test_rule ''foo_proto'' (Some ['':stale''])) [''sub/bar.proto'']"
  have p1: "PrivateAttr ?r1 (GazelleImportsKey test_env) = Some (StringsValue [''sub/bar.proto''])"
    by (simp add: with_imports_def)
  have p2: "PrivateAttr ?r2 (GazelleImportsKey test_env) = Some (StringsValue [''sub/bar.proto''])"
    by (simp add: with_imports_def)
  have l1: "fst (Resolve_loop test_env ?ix ?r1 (label_New [] [] ''dep_proto'') [''sub/bar.proto''] [] [])
              = [''//sub:foo_proto'']"
    by code_simp
  have l2: "fst (Resolve_loop test_env ?ix ?r2 (label_New [] ''sub'' ''foo_proto'') [''sub/bar.proto''] [] [])
              = []"
    by code_simp
  from Resolve_idempotent [OF p1, of ?ix "label_New [] [] ''dep_proto''"]
  have one: "\<exists>r' lg.
      Resolve test_env ?ix ?r1 (label_New [] [] ''dep_proto'') = Returned r' lg \<and>
      Resolve test_env ?ix r' (label_New [] [] ''dep_proto'') = Returned r' lg \<and>
      AttrStrings r' ''deps'' = [''//sub:foo_proto'']"
    unfolding l1 by blast
  from Resolve_idempotent [OF p2, of ?ix "label_New [] ''sub'' ''foo_proto''"]
  have two: "\<exists>r' lg.
      Resolve test_env ?ix ?r2 (label_New [] ''sub'' ''foo_proto'') = Returned r' lg \<and>
      Resolve test_env ?ix r' (label_New [] ''sub'' ''foo_proto'') = Returned r' lg \<and>
      Attr r' ''deps'' = None"
    unfolding l2 by auto
  from one two show ?thesis by blast
qed

section \<open>Imports that add no dependency\<close>

text \<open>
  In the three theorems of this section the raw imports of the rule are
  \<open>pre @ imp # post\<close>, and the run is compared with the run on the same rule with
  \<open>imp\<close> taken out of the raw imports: equal attributes mean that \<open>imp\<close> has added no
  dependency and that the imports before and after it were resolved and written as they
  are without it.
\<close>

lemma Resolve_eval:
  assumes "PrivateAttr r (GazelleImportsKey e) = Some (StringsValue imps)"
    and "Resolve_loop e ix r frm imps [] [] = (ds, lg)"
  shows "\<exists>r'. Resolve e ix r frm = Returned r' lg \<and> AttrStrings r' ''deps'' = ds"
  using assms by (auto simp: Resolve_strings AttrStrings_def)

text \<open>
  C1 (amended). An import that has more than one provider in the index and is not a
  well-known path gets no label: \<open>resolveProto\<close> returns an error for it, the ambiguity
  error naming the first two providers when the import ends in \<open>.proto\<close> and the
  non-proto error otherwise. \<open>Resolve\<close> logs that error once, adds no dependency for the
  import, and resolves the other imports of the rule as it does without it. This holds
  whether or not the resolving rule is one of the providers.
\<close>

theorem ambiguous_import_no_edge:
  assumes many: "1 < length (FindRulesByImport ix \<lparr>Lang = ''proto'', Imp = imp\<rparr> ''proto'')"
    and nwk: "\<not> isWellKnownProto e imp"
    and p: "PrivateAttr r (GazelleImportsKey e) = Some (StringsValue (pre @ imp # post))"
  shows "\<exists>err r' r0 l1 l2.
           err = (if strings_HasSuffix imp ''.proto'' then
                    multipleRulesError
                      (Label (FindRulesByImport ix \<lparr>Lang = ''proto'', Imp = imp\<rparr> ''proto'' ! 0))
                      (Label (FindRulesByImport ix \<lparr>Lang = ''proto'', Imp = imp\<rparr> ''proto'' ! 1))
                      imp frm
                  else nonProtoError imp) \<and>
           resolveProto e ix r imp frm = Inl err \<and>
           Resolve e ix r frm = Returned r' (l1 @ err # l2) \<and>
           Resolve e ix (SetPrivateAttr r (GazelleImportsKey e) (StringsValue (pre @ post))) frm
             = Returned r0 (l1 @ l2) \<and>
           attrs r' = attrs r0"
proof -
  let ?err = "if strings_HasSuffix imp ''.proto'' then
                    multipleRulesError
                      (Label (FindRulesByImport ix \<lparr>Lang = ''proto'', Imp = imp\<rparr> ''proto'' ! 0))
                      (Label (FindRulesByImport ix \<lparr>Lang = ''proto'', Imp = imp\<rparr> ''proto'' ! 1))
                      imp frm
                  else nonProtoError imp"
  have err: "resolveProto e ix r imp frm = Inl ?err"
  proof (cases "strings_HasSuffix imp ''.proto''")
    case True
    with nwk resolveWithIndex_many [OF many, of frm] show ?thesis
      by (simp add: resolveProto_index)
  next
    case False
    then show ?thesis by (simp add: resolveProto_def)
  qed
  have ns: "?err \<noteq> skipImportError" by simp
  from Resolve_without_import [OF p err] ns
  obtain r' r0 l1 l2 where
    "Resolve e ix r frm = Returned r' (l1 @ [?err] @ l2)"
    "Resolve e ix (SetPrivateAttr r (GazelleImportsKey e) (StringsValue (pre @ post))) frm
       = Returned r0 (l1 @ l2)"
    "attrs r' = attrs r0"
    by auto
  with err show ?thesis by auto
qed

theorem ambiguous_import_no_edge_witness:
  "1 < length (FindRulesByImport test_index \<lparr>Lang = ''proto'', Imp = ''foo/foo.proto''\<rparr> ''proto'') \<and>
   \<not> isWellKnownProto test_env ''foo/foo.proto'' \<and>
   (\<exists>r'. Resolve test_env test_index
            (with_imports (test_rule ''bin_proto'' None)
               [''sub/bar.proto'', ''foo/foo.proto'', ''app/sib.proto''])
            (label_New [] ''app'' ''bin_proto'')
          = Returned r'
              [multipleRulesError (label_New [] ''foo'' ''a'') (label_New [] ''foo'' ''b'')
                 ''foo/foo.proto'' (label_New [] ''app'' ''bin_proto'')] \<and>
        AttrStrings r' ''deps'' = [''//sub:foo_proto'', '':sib_proto''])"
proof -
  let ?r = "with_imports (test_rule ''bin_proto'' None)
              [''sub/bar.proto'', ''foo/foo.proto'', ''app/sib.proto'']"
  let ?frm = "label_New [] ''app'' ''bin_proto''"
  let ?rw = "SetPrivateAttr ?r (GazelleImportsKey test_env)
               (StringsValue [''sub/bar.proto'', ''app/sib.proto''])"
  have many: "1 < length (FindRulesByImport test_index \<lparr>Lang = ''proto'', Imp = ''foo/foo.proto''\<rparr> ''proto'')"
    by code_simp
  have nwk: "\<not> isWellKnownProto test_env ''foo/foo.proto''"
    by code_simp
  have p: "PrivateAttr ?r (GazelleImportsKey test_env) =
             Some (StringsValue ([''sub/bar.proto''] @ ''foo/foo.proto'' # [''app/sib.proto'']))"
    by (simp add: with_imports_def)
  have diag: "(if strings_HasSuffix ''foo/foo.proto'' ''.proto'' then
                 multipleRulesError
                   (Label (FindRulesByImport test_index \<lparr>Lang = ''proto'', Imp = ''foo/foo.proto''\<rparr> ''proto'' ! 0))
                   (Label (FindRulesByImport test_index \<lparr>Lang = ''proto'', Imp = ''foo/foo.proto''\<rparr> ''proto'' ! 1))
                   ''foo/foo.proto'' ?frm
               else nonProtoError ''foo/foo.proto'')
              = multipleRulesError (label_New [] ''foo'' ''a'') (label_New [] ''foo'' ''b'')
                  ''foo/foo.proto'' ?frm"
    by code_simp
  from ambiguous_import_no_edge [OF many nwk p, of ?frm]
  obtain r' r0 l1 l2 where
    res: "Resolve test_env test_index ?r ?frm =
            Returned r' (l1 @ multipleRulesError (label_New [] ''foo'' ''a'') (label_New [] ''foo'' ''b'')
                                ''foo/foo.proto'' ?frm # l2)"
    and res0: "Resolve test_env test_index ?rw ?frm = Returned r0 (l1 @ l2)"
    and at: "attrs r' = attrs r0"
    unfolding diag by auto
  have p0: "PrivateAttr ?rw (GazelleImportsKey test_env) =
              Some (StringsValue [''sub/bar.proto'', ''app/sib.proto''])"
    by simp
  have loop0: "Resolve_loop test_env test_index ?rw ?frm [''sub/bar.proto'', ''app/sib.proto''] [] []
                 = ([''//sub:foo_proto'', '':sib_proto''], [])"
    by code_simp
  from Resolve_eval [OF p0 loop0] res0
  have "l1 @ l2 = []" and "AttrStrings r0 ''deps'' = [''//sub:foo_proto'', '':sib_proto'']"
    by auto
  with res at have "Resolve test_env test_index ?r ?frm =
            Returned r' [multipleRulesError (label_New [] ''foo'' ''a'') (label_New [] ''foo'' ''b'')
                           ''foo/foo.proto'' ?frm]"
    and "AttrStrings r' ''deps'' = [''//sub:foo_proto'', '':sib_proto'']"
    by (simp_all add: AttrStrings_def)
  with many nwk show ?thesis by blast
qed

text \<open>
  As stated, for every import with more than one provider, C1 fails on a well-known
  path: \<open>google/protobuf/any.proto\<close> has two providers in \<open>wkt_index\<close>, the rule
  \<open>//app:bin_proto\<close> is neither, and resolving it writes the dependency on the
  well-known-types repository and logs nothing.
\<close>

theorem ambiguous_well_known_import_counterexample:
  "length (FindRulesByImport wkt_index \<lparr>Lang = ''proto'', Imp = ''google/protobuf/any.proto''\<rparr> ''proto'') = 2 \<and>
   label_New [] ''app'' ''bin_proto'' \<notin>
     set (map Label (FindRulesByImport wkt_index
                       \<lparr>Lang = ''proto'', Imp = ''google/protobuf/any.proto''\<rparr> ''proto'')) \<and>
   (case Resolve test_env wkt_index
           (with_imports (test_rule ''bin_proto'' None) [''google/protobuf/any.proto''])
           (label_New [] ''app'' ''bin_proto'') of
      Panic \<Rightarrow> False
    | Returned r' lg \<Rightarrow> AttrStrings r' ''deps'' = [''@com_google_protobuf//:any_proto''] \<and> lg = [])"
  by code_simp

text \<open>
  C2 (amended). An import that ends in \<open>.proto\<close>, is not a well-known path and has
  exactly one provider in the index, whose label equals the label of the resolving rule,
  is skipped: \<open>resolveProto\<close> returns \<open>skipImportError\<close>, and \<open>Resolve\<close> returns the
  attributes and the log that it returns without that import, so no dependency is added
  and nothing is logged for it.
\<close>

theorem self_import_skipped:
  assumes one: "FindRulesByImport ix \<lparr>Lang = ''proto'', Imp = imp\<rparr> ''proto'' = [m]"
    and self: "label_Equal frm (Label m)"
    and suf: "strings_HasSuffix imp ''.proto''"
    and nwk: "\<not> isWellKnownProto e imp"
    and p: "PrivateAttr r (GazelleImportsKey e) = Some (StringsValue (pre @ imp # post))"
  shows "resolveProto e ix r imp frm = Inl skipImportError \<and>
         (\<exists>r' r0 lg.
            Resolve e ix r frm = Returned r' lg \<and>
            Resolve e ix (SetPrivateAttr r (GazelleImportsKey e) (StringsValue (pre @ post))) frm
              = Returned r0 lg \<and>
            attrs r' = attrs r0)"
proof -
  have err: "resolveProto e ix r imp frm = Inl skipImportError"
    using suf nwk resolveWithIndex_self [OF one self] by (simp add: resolveProto_index)
  from Resolve_without_import [OF p err]
  obtain r' r0 l1 l2 where
    "Resolve e ix r frm = Returned r' (l1 @ l2)"
    "Resolve e ix (SetPrivateAttr r (GazelleImportsKey e) (StringsValue (pre @ post))) frm
       = Returned r0 (l1 @ l2)"
    "attrs r' = attrs r0"
    by auto
  with err show ?thesis by blast
qed

theorem self_import_skipped_witness:
  "FindRulesByImport test_index \<lparr>Lang = ''proto'', Imp = ''sub/bar.proto''\<rparr> ''proto''
     = [\<lparr>Label = label_New [] ''sub'' ''foo_proto''\<rparr>] \<and>
   strings_HasSuffix ''sub/bar.proto'' ''.proto'' \<and>
   \<not> isWellKnownProto test_env ''sub/bar.proto'' \<and>
   resolveProto test_env test_index
       (with_imports (test_rule ''foo_proto'' None) [''sub/bar.proto'', ''app/sib.proto''])
       ''sub/bar.proto'' (label_New [] ''sub'' ''foo_proto'')
     = Inl skipImportError \<and>
   (\<exists>r'. Resolve test_env test_index
            (with_imports (test_rule ''foo_proto'' None) [''sub/bar.proto'', ''app/sib.proto''])
            (label_New [] ''sub'' ''foo_proto'')
          = Returned r' [] \<and>
        AttrStrings r' ''deps'' = [''//app:sib_proto''])"
proof -
  let ?r = "with_imports (test_rule ''foo_proto'' None) [''sub/bar.proto'', ''app/sib.proto'']"
  let ?frm = "label_New [] ''sub'' ''foo_proto''"
  let ?rw = "SetPrivateAttr ?r (GazelleImportsKey test_env) (StringsValue [''app/sib.proto''])"
  have one: "FindRulesByImport test_index \<lparr>Lang = ''proto'', Imp = ''sub/bar.proto''\<rparr> ''proto''
               = [\<lparr>Label = ?frm\<rparr>]"
    by code_simp
  have self: "label_Equal ?frm (Label \<lparr>Label = ?frm\<rparr>)"
    by (simp add: label_Equal_def)
  have suf: "strings_HasSuffix ''sub/bar.proto'' ''.proto''"
    by code_simp
  have nwk: "\<not> isWellKnownProto test_env ''sub/bar.proto''"
    by code_simp
  have p: "PrivateAttr ?r (GazelleImportsKey test_env) =
             Some (StringsValue ([] @ ''sub/bar.proto'' # [''app/sib.proto'']))"
    by (simp add: with_imports_def)
  from self_import_skipped [OF one self suf nwk p]
  obtain r' r0 lg where
    skip: "resolveProto test_env test_index ?r ''sub/bar.proto'' ?frm = Inl skipImportError"
    and res: "Resolve test_env test_index ?r ?frm = Returned r' lg"
    and res0: "Resolve test_env test_index ?rw ?frm = Returned r0 lg"
    and at: "attrs r' = attrs r0"
    by auto
  have p0: "PrivateAttr ?rw (GazelleImportsKey test_env) = Some (StringsValue [''app/sib.proto''])"
    by simp
  have loop0: "Resolve_loop test_env test_index ?rw ?frm [''app/sib.proto''] [] []
                 = ([''//app:sib_proto''], [])"
    by code_simp
  from Resolve_eval [OF p0 loop0] res0
  have "lg = []" and "AttrStrings r0 ''deps'' = [''//app:sib_proto'']"
    by auto
  with res at have "Resolve test_env test_index ?r ?frm = Returned r' []"
    and "AttrStrings r' ''deps'' = [''//app:sib_proto'']"
    by (simp_all add: AttrStrings_def)
  with one suf nwk skip show ?thesis by blast
qed

text \<open>
  As stated, for every import whose only provider is the resolving rule, C2 fails in two
  ways. The rule \<open>//google/protobuf:empty_proto\<close> is the only provider of
  \<open>google/protobuf/empty.proto\<close>, and resolving that import for it writes the
  dependency on the well-known-types repository. The rule \<open>//docs:docs_proto\<close> is the
  only provider of \<open>docs/notes.txt\<close>, and resolving that import for it logs the
  non-proto error.
\<close>

theorem self_import_outside_index_lookup_counterexample:
  "FindRulesByImport wkt_index \<lparr>Lang = ''proto'', Imp = ''google/protobuf/empty.proto''\<rparr> ''proto''
     = [\<lparr>Label = label_New [] ''google/protobuf'' ''empty_proto''\<rparr>] \<and>
   (case Resolve test_env wkt_index
           (with_imports (test_rule ''empty_proto'' None) [''google/protobuf/empty.proto''])
           (label_New [] ''google/protobuf'' ''empty_proto'') of
      Panic \<Rightarrow> False
    | Returned r' lg \<Rightarrow> AttrStrings r' ''deps'' = [''@com_google_protobuf//:empty_proto''] \<and> lg = []) \<and>
   FindRulesByImport wkt_index \<lparr>Lang = ''proto'', Imp = ''docs/notes.txt''\<rparr> ''proto''
     = [\<lparr>Label = label_New [] ''docs'' ''docs_proto''\<rparr>] \<and>
   (case Resolve test_env wkt_index
           (with_imports (test_rule ''docs_proto'' None) [''docs/notes.txt''])
           (label_New [] ''docs'' ''docs_proto'') of
      Panic \<Rightarrow> False
    | Returned r' lg \<Rightarrow> AttrStrings r' ''deps'' = [] \<and> lg = [nonProtoError ''docs/notes.txt''])"
  by code_simp

text \<open>
  C4 (amended). An import that does not end in \<open>.proto\<close> is not resolved to any
  label: \<open>resolveProto\<close> returns the non-proto error for it. \<open>Resolve\<close> treats that
  error like any other error of an import: it logs it once, adds no dependency for the
  import, and goes on to resolve the other imports of the rule as it does without it.
\<close>

theorem non_proto_import_logged:
  assumes nsuf: "\<not> strings_HasSuffix imp ''.proto''"
    and p: "PrivateAttr r (GazelleImportsKey e) = Some (StringsValue (pre @ imp # post))"
  shows "resolveProto e ix r imp frm = Inl (nonProtoError imp) \<and>
         (\<exists>r' r0 l1 l2.
            Resolve e ix r frm = Returned r' (l1 @ nonProtoError imp # l2) \<and>
            Resolve e ix (SetPrivateAttr r (GazelleImportsKey e) (StringsValue (pre @ post))) frm
              = Returned r0 (l1 @ l2) \<and>
            attrs r' = attrs r0)"
proof -
  have err: "resolveProto e ix r imp frm = Inl (nonProtoError imp)"
    using nsuf by (simp add: resolveProto_def)
  from Resolve_without_import [OF p err]
  obtain r' r0 l1 l2 where
    "Resolve e ix r frm = Returned r' (l1 @ [nonProtoError imp] @ l2)"
    "Resolve e ix (SetPrivateAttr r (GazelleImportsKey e) (StringsValue (pre @ post))) frm
       = Returned r0 (l1 @ l2)"
    "attrs r' = attrs r0"
    by auto
  with err show ?thesis by auto
qed

theorem non_proto_import_logged_witness:
  "\<not> strings_HasSuffix ''notes.txt'' ''.proto'' \<and>
   resolveProto test_env test_index
       (with_imports (test_rule ''bin_proto'' None) [''notes.txt'', ''sub/bar.proto''])
       ''notes.txt'' (label_New [] ''app'' ''bin_proto'')
     = Inl (nonProtoError ''notes.txt'') \<and>
   (\<exists>r'. Resolve test_env test_index
            (with_imports (test_rule ''bin_proto'' None) [''notes.txt'', ''sub/bar.proto''])
            (label_New [] ''app'' ''bin_proto'')
          = Returned r' [nonProtoError ''notes.txt''] \<and>
        AttrStrings r' ''deps'' = [''//sub:foo_proto''])"
proof -
  let ?r = "with_imports (test_rule ''bin_proto'' None) [''notes.txt'', ''sub/bar.proto'']"
  let ?frm = "label_New [] ''app'' ''bin_proto''"
  let ?rw = "SetPrivateAttr ?r (GazelleImportsKey test_env) (StringsValue [''sub/bar.proto''])"
  have nsuf: "\<not> strings_HasSuffix ''notes.txt'' ''.proto''"
    by code_simp
  have p: "PrivateAttr ?r (GazelleImportsKey test_env) =
             Some (StringsValue ([] @ ''notes.txt'' # [''sub/bar.proto'']))"
    by (simp add: with_imports_def)
  from non_proto_import_logged [OF nsuf p, of test_index ?frm]
  obtain r' r0 l1 l2 where
    err: "resolveProto test_env test_index ?r ''notes.txt'' ?frm = Inl (nonProtoError ''notes.txt'')"
    and res: "Resolve test_env test_index ?r ?frm = Returned r' (l1 @ nonProtoError ''notes.txt'' # l2)"
    and res0: "Resolve test_env test_index ?rw ?frm = Returned r0 (l1 @ l2)"
    and at: "attrs r' = attrs r0"
    by auto
  have p0: "PrivateAttr ?rw (GazelleImportsKey test_env) = Some (StringsValue [''sub/bar.proto''])"
    by simp
  have loop0: "Resolve_loop test_env test_index ?rw ?frm [''sub/bar.proto''] [] []
                 = ([''//sub:foo_proto''], [])"
    by code_simp
  from Resolve_eval [OF p0 loop0] res0
  have "l1 @ l2 = []" and "AttrStrings r0 ''deps'' = [''//sub:foo_proto'']"
    by auto
  with res at have "Resolve test_env test_index ?r ?frm = Returned r' [nonProtoError ''notes.txt'']"
    and "AttrStrings r' ''deps'' = [''//sub:foo_proto'']"
    by (simp_all add: AttrStrings_def)
  with nsuf err show ?thesis by blast
qed

text \<open>
  As stated, C4 has the resolver reject such an import as a violation of the caller's
  contract and not as a condition to recover from. The run below recovers: it does not
  panic, logs the error for \<open>notes.txt\<close> and writes the dependency for the import
  after it.
\<close>

theorem non_proto_import_recovered_counterexample:
  "\<not> strings_HasSuffix ''notes.txt'' ''.proto'' \<and>
   (case Resolve test_env test_index
           (with_imports (test_rule ''bin_proto'' None) [''notes.txt'', ''sub/bar.proto''])
           (label_New [] ''app'' ''bin_proto'') of
      Panic \<Rightarrow> False
    | Returned r' lg \<Rightarrow> AttrStrings r' ''deps'' = [''//sub:foo_proto''] \<and> lg = [nonProtoError ''notes.txt''])"
  by code_simp

section \<open>The labels written by Resolve\<close>

lemma label_String_Rel:
  assumes "\<not> Relative l"
  shows "label_String (label_Rel l repo pkg) =
           (if Repo l = repo \<and> Pkg l = pkg then '':'' @ Name l
            else (if Repo l = repo \<or> Repo l = [] then [] else ''@'' @ Repo l) @ ''//'' @ Pkg l @
                 (if path_Base (Pkg l) = Name l then [] else '':'' @ Name l))"
  using assms by (simp add: label_String_def label_Rel_def Let_def)

lemma Resolve_loop_deps_origin:
  assumes "d \<in> set (fst (Resolve_loop e ix r frm imps deps lg))"
  shows "d \<in> set deps \<or>
         (\<exists>imp l. imp \<in> set imps \<and> resolveProto e ix r imp frm = Inr l \<and>
                  d = label_String (label_Rel l (Repo frm) (Pkg frm)))"
  using assms
proof (induction imps arbitrary: deps lg)
  case Nil
  then show ?case by simp
next
  case (Cons imp imps)
  show ?case
  proof (cases "resolveProto e ix r imp frm")
    case (Inl err)
    with Cons.prems have "d \<in> set (fst (Resolve_loop e ix r frm imps deps
                                          (if err = skipImportError then lg else lg @ [err])))"
      by (simp split: if_splits)
    from Cons.IH [OF this] show ?thesis by auto
  next
    case (Inr l)
    with Cons.prems have "d \<in> set (fst (Resolve_loop e ix r frm imps
                             (deps @ [label_String (label_Rel l (Repo frm) (Pkg frm))]) lg))"
      by simp
    from Cons.IH [OF this] Inr show ?thesis by auto
  qed
qed

text \<open>
  C7 (amended). Every string in the dependency attribute that \<open>Resolve\<close> writes is the
  printed form of a label that one of the raw imports resolved to, made relative to the
  repository and package of the resolving rule first. For a label that is not already
  relative, that string is \<open>:name\<close> when repository and package are those of the
  resolving rule; otherwise it is \<open>//pkg:name\<close>, preceded by \<open>@repo\<close> when the label
  has a repository other than the resolving rule's and other than the empty one, and
  with \<open>:name\<close> left out when \<open>name\<close> is the last element of \<open>pkg\<close>.
\<close>

theorem Resolve_writes_relative_labels:
  assumes p: "PrivateAttr r (GazelleImportsKey e) = Some (StringsValue imps)"
    and res: "Resolve e ix r frm = Returned r' lg"
    and d: "d \<in> set (AttrStrings r' ''deps'')"
  shows "\<exists>imp l. imp \<in> set imps \<and> resolveProto e ix r imp frm = Inr l \<and>
           d = label_String (label_Rel l (Repo frm) (Pkg frm)) \<and>
           (\<not> Relative l \<longrightarrow>
              d = (if Repo l = Repo frm \<and> Pkg l = Pkg frm then '':'' @ Name l
                   else (if Repo l = Repo frm \<or> Repo l = [] then [] else ''@'' @ Repo l) @
                        ''//'' @ Pkg l @
                        (if path_Base (Pkg l) = Name l then [] else '':'' @ Name l)))"
proof -
  let ?ds = "fst (Resolve_loop e ix r frm imps [] [])"
  from res have r': "r' = (if ?ds = [] then DelAttr r ''deps''
                           else SetAttr (DelAttr r ''deps'') ''deps'' (StringsAttr ?ds))"
    unfolding Resolve_strings [OF p] by simp
  have "AttrStrings r' ''deps'' = ?ds"
    unfolding r' by (simp add: AttrStrings_def)
  with d have "d \<in> set ?ds" by simp
  from Resolve_loop_deps_origin [OF this]
  obtain imp l where imp: "imp \<in> set imps"
    and l: "resolveProto e ix r imp frm = Inr l"
    and dl: "d = label_String (label_Rel l (Repo frm) (Pkg frm))"
    by auto
  have "\<not> Relative l \<longrightarrow>
          d = (if Repo l = Repo frm \<and> Pkg l = Pkg frm then '':'' @ Name l
               else (if Repo l = Repo frm \<or> Repo l = [] then [] else ''@'' @ Repo l) @
                    ''//'' @ Pkg l @
                    (if path_Base (Pkg l) = Name l then [] else '':'' @ Name l))"
    unfolding dl by (rule impI) (rule label_String_Rel)
  with imp l dl show ?thesis by blast
qed

theorem Resolve_writes_relative_labels_witness:
  "\<exists>r' lg.
     Resolve test_env test_index
       (with_imports (test_rule ''bin_proto'' None)
          [''app/sib.proto'', ''sub/bar.proto'', ''google/protobuf/any.proto''])
       (label_New [] ''app'' ''bin_proto'') = Returned r' lg \<and>
     AttrStrings r' ''deps'' = ['':sib_proto'', ''//sub:foo_proto'', ''@com_google_protobuf//:any_proto''] \<and>
     (\<exists>imp l. imp \<in> set [''app/sib.proto'', ''sub/bar.proto'', ''google/protobuf/any.proto''] \<and>
        resolveProto test_env test_index
          (with_imports (test_rule ''bin_proto'' None)
             [''app/sib.proto'', ''sub/bar.proto'', ''google/protobuf/any.proto''])
          imp (label_New [] ''app'' ''bin_proto'') = Inr l \<and>
        ''//sub:foo_proto'' = label_String (label_Rel l [] ''app''))"
proof -
  let ?imps = "[''app/sib.proto'', ''sub/bar.proto'', ''google/protobuf/any.proto'']"
  let ?r = "with_imports (test_rule ''bin_proto'' None) ?imps"
  let ?frm = "label_New [] ''app'' ''bin_proto''"
  have p: "PrivateAttr ?r (GazelleImportsKey test_env) = Some (StringsValue ?imps)"
    by (simp add: with_imports_def)
  have loop: "Resolve_loop test_env test_index ?r ?frm ?imps [] [] =
                (['':sib_proto'', ''//sub:foo_proto'', ''@com_google_protobuf//:any_proto''], [])"
    by code_simp
  from Resolve_eval [OF p loop] obtain r' where
    res: "Resolve test_env test_index ?r ?frm = Returned r' []"
    and ds: "AttrStrings r' ''deps'' =
               ['':sib_proto'', ''//sub:foo_proto'', ''@com_google_protobuf//:any_proto'']"
    by blast
  have d: "''//sub:foo_proto'' \<in> set (AttrStrings r' ''deps'')"
    unfolding ds by simp
  have frm: "Repo ?frm = []" "Pkg ?frm = ''app''"
    by (simp_all add: label_New_def)
  from Resolve_writes_relative_labels [OF p res d]
  have "\<exists>imp l. imp \<in> set ?imps \<and> resolveProto test_env test_index ?r imp ?frm = Inr l \<and>
          ''//sub:foo_proto'' = label_String (label_Rel l [] ''app'')"
    unfolding frm by blast
  with res ds show ?thesis by blast
qed

text \<open>
  As stated, C7 has a provider in another package of the same repository written as
  \<open>//pkg:name\<close>. The rule \<open>a\<close> of package \<open>lib/a\<close> is written as \<open>//lib/a\<close>.
\<close>

theorem Resolve_abbreviates_label_counterexample:
  "FindRulesByImport test_index \<lparr>Lang = ''proto'', Imp = ''lib/a/a.proto''\<rparr> ''proto''
     = [\<lparr>Label = label_New [] ''lib/a'' ''a''\<rparr>] \<and>
   (case Resolve test_env test_index
           (with_imports (test_rule ''bin_proto'' None) [''lib/a/a.proto''])
           (label_New [] ''app'' ''bin_proto'') of
      Panic \<Rightarrow> False
    | Returned r' lg \<Rightarrow> AttrStrings r' ''deps'' = [''//lib/a''] \<and> lg = [])"
  by code_simp

text \<open>
  The case \<open>proto_embed\<close> of the test table: in the root package, \<open>bar_proto\<close> imports
  \<open>foo.proto\<close>, a source of \<open>foo_proto\<close>, and gets the dependency \<open>:foo_proto\<close>.
\<close>

lemma case_proto_embed:
  "(case Resolve test_env
           [proto_rule [] ''foo_proto'' [''foo.proto''], proto_rule [] ''bar_proto'' [''bar.proto'']]
           (with_imports (test_rule ''bar_proto'' None) [''foo.proto''])
           (label_New [] [] ''bar_proto'') of
      Panic \<Rightarrow> False
    | Returned r' lg \<Rightarrow> AttrStrings r' ''deps'' = ['':foo_proto''] \<and> lg = [])"
  by code_simp

section \<open>Vendoring precedence\<close>

lemma filter_single:
  "distinct xs \<Longrightarrow> x \<in> set xs \<Longrightarrow> (\<forall>y \<in> set xs. P y \<longleftrightarrow> y = x) \<Longrightarrow> filter P xs = [x]"
  by (induction xs) (auto simp: filter_empty_conv)

lemma set_map_filter_Some:
  "set (List.map_filter f xs) = {y. \<exists>x \<in> set xs. f x = Some y}"
  by (induction xs) (auto simp: map_filter_simps split: option.splits)

lemma fold_max_greatest:
  fixes n :: nat
  assumes "n \<in> set xs" and "\<And>k. k \<in> set xs \<Longrightarrow> k \<le> n"
  shows "fold max xs 0 = n"
proof -
  have "fold max xs 0 = Max (set (0 # xs))"
    by (rule Max.set_eq_fold [symmetric])
  also have "\<dots> = n"
    using assms by (intro Max_eqI) auto
  finally show ?thesis .
qed

text \<open>
  C8. Among the candidates the index returns for an import, a candidate in a vendor
  directory that encloses the importing rule wins when every other candidate has no
  vendor depth for that rule (it is outside every vendor directory, or in a vendor
  directory that does not enclose the rule) or a smaller one (its vendor directory is
  further up): the lookup returns that candidate's label, unless it is the importing
  rule itself. So the nearest enclosing vendor directory wins over a shallower one, and
  a vendored copy wins over a copy outside every vendor directory.
\<close>

theorem nearest_vendor_wins:
  assumes m: "m \<in> set (FindRulesByImport ix \<lparr>Lang = ''go'', Imp = imp\<rparr> ''go'')"
    and dist: "distinct (FindRulesByImport ix \<lparr>Lang = ''go'', Imp = imp\<rparr> ''go'')"
    and depth: "vendorDepth m frm = Some n"
    and others: "\<forall>m' \<in> set (FindRulesByImport ix \<lparr>Lang = ''go'', Imp = imp\<rparr> ''go'').
                   m' = m \<or> (case vendorDepth m' frm of None \<Rightarrow> True | Some k \<Rightarrow> k < n)"
    and notself: "\<not> label_Equal frm (Label m)"
  shows "resolveWithIndexGo ix imp frm = Inr (Label m)"
proof -
  let ?ms = "FindRulesByImport ix \<lparr>Lang = ''go'', Imp = imp\<rparr> ''go''"
  let ?depths = "List.map_filter (\<lambda>m. vendorDepth m frm) ?ms"
  have one: "tieBreak [m] imp frm = Inr (Label m)"
    using notself by (simp add: tieBreak_def)
  have set_depths: "set ?depths = {k. \<exists>m' \<in> set ?ms. vendorDepth m' frm = Some k}"
    by (rule set_map_filter_Some)
  have n_in: "n \<in> set ?depths"
    unfolding set_depths using m depth by blast
  have le: "k \<le> n" if "k \<in> set ?depths" for k
  proof -
    from that obtain m' where m': "m' \<in> set ?ms" and k: "vendorDepth m' frm = Some k"
      unfolding set_depths by blast
    from others m' have "m' = m \<or> (case vendorDepth m' frm of None \<Rightarrow> True | Some k \<Rightarrow> k < n)"
      by blast
    with k depth show ?thesis by auto
  qed
  have best: "fold max ?depths 0 = n"
    using n_in le by (rule fold_max_greatest)
  have only: "vendorDepth y frm = Some n \<longleftrightarrow> y = m" if "y \<in> set ?ms" for y
  proof
    assume y: "vendorDepth y frm = Some n"
    from others that have "y = m \<or> (case vendorDepth y frm of None \<Rightarrow> True | Some k \<Rightarrow> k < n)"
      by blast
    with y show "y = m" by auto
  next
    assume "y = m"
    with depth show "vendorDepth y frm = Some n" by simp
  qed
  have kept: "filter (\<lambda>m'. vendorDepth m' frm = Some n) ?ms = [m]"
    using dist m only by (intro filter_single) auto
  have narrow: "narrowByVendor ?ms frm = [m]"
    using n_in by (auto simp: narrowByVendor_def Let_def best kept)
  show ?thesis
  proof (cases "length ?ms > 1")
    case True
    then show ?thesis by (simp add: resolveWithIndexGo_def Let_def narrow one)
  next
    case False
    with m have "?ms = [m]"
      by (cases ?ms) auto
    then show ?thesis by (simp add: resolveWithIndexGo_def Let_def one)
  qed
qed

theorem nearest_vendor_wins_witness:
  "vendorDepth \<lparr>Label = label_New [] ''shallow/deep/vendor'' ''deep''\<rparr>
     (label_New [] ''shallow/deep'' ''bin'') = Some 12 \<and>
   vendorDepth \<lparr>Label = label_New [] ''shallow/vendor'' ''shallow''\<rparr>
     (label_New [] ''shallow/deep'' ''bin'') = Some 7 \<and>
   resolveWithIndexGo deep_vendor_shallow_vendor_index ''example.com/foo''
     (label_New [] ''shallow/deep'' ''bin'') = Inr (label_New [] ''shallow/deep/vendor'' ''deep'') \<and>
   label_String (label_Rel (label_New [] ''shallow/deep/vendor'' ''deep'') [] ''shallow/deep'')
     = ''//shallow/deep/vendor:deep''"
proof -
  let ?ix = "deep_vendor_shallow_vendor_index"
  let ?frm = "label_New [] ''shallow/deep'' ''bin''"
  let ?m = "\<lparr>Label = label_New [] ''shallow/deep/vendor'' ''deep''\<rparr>"
  have m: "?m \<in> set (FindRulesByImport ?ix \<lparr>Lang = ''go'', Imp = ''example.com/foo''\<rparr> ''go'')"
    by code_simp
  have dist: "distinct (FindRulesByImport ?ix \<lparr>Lang = ''go'', Imp = ''example.com/foo''\<rparr> ''go'')"
    by code_simp
  have depth: "vendorDepth ?m ?frm = Some 12"
    by code_simp
  have shallow: "vendorDepth \<lparr>Label = label_New [] ''shallow/vendor'' ''shallow''\<rparr> ?frm = Some 7"
    by code_simp
  have others: "\<forall>m' \<in> set (FindRulesByImport ?ix \<lparr>Lang = ''go'', Imp = ''example.com/foo''\<rparr> ''go'').
                  m' = ?m \<or> (case vendorDepth m' ?frm of None \<Rightarrow> True | Some k \<Rightarrow> k < 12)"
    by code_simp
  have notself: "\<not> label_Equal ?frm (Label ?m)"
    by code_simp
  have printed: "label_String (label_Rel (label_New [] ''shallow/deep/vendor'' ''deep'') [] ''shallow/deep'')
                   = ''//shallow/deep/vendor:deep''"
    by code_simp
  have "resolveWithIndexGo ?ix ''example.com/foo'' ?frm = Inr (Label ?m)"
    using m dist depth others notself by (rule nearest_vendor_wins)
  then have "resolveWithIndexGo ?ix ''example.com/foo'' ?frm
               = Inr (label_New [] ''shallow/deep/vendor'' ''deep'')"
    by simp
  with depth shallow printed show ?thesis by blast
qed

text \<open>
  The other vendoring cases of the test table, with the dependency string each expects.
\<close>

lemma case_vendor_not_visible:
  "map_sum id (\<lambda>l. label_String (label_Rel l [] ''b''))
     (resolveWithIndexGo vendor_not_visible_index ''example.com/foo'' (label_New [] ''b'' ''bin''))
   = Inr ''//:root''"
  by code_simp

lemma case_vendor_supercedes_nonvendor:
  "map_sum id (\<lambda>l. label_String (label_Rel l [] ''sub''))
     (resolveWithIndexGo vendor_supercedes_nonvendor_index ''example.com/foo''
        (label_New [] ''sub'' ''bin''))
   = Inr ''//vendor/foo:vendored''"
  by code_simp

lemma case_nested_vendor:
  "map_sum id (\<lambda>l. label_String (label_Rel l [] ''vendor/b/c''))
     (resolveWithIndexGo nested_vendor_index ''a'' (label_New [] ''vendor/b/c'' ''bin''))
   = Inr ''//vendor/b/vendor/a''"
  by code_simp

end
